theory Spec2Isabelle
  imports Complex_Main "HOL-Library.Stream" "HOL-Library.Multiset"
begin

section \<open>JavaScript values used by the module \<open>jira\<close>\<close>

text \<open>
  The module \<open>jira\<close> is the second part of \<open>src/src/main.ts\<close>: \<open>issueAlreadyHasVersion\<close>,
  \<open>requestWithRetry\<close> and \<open>assignVersionToIssues\<close>. What it imports is taken as follows:
  the logging functions of \<open>@actions/core\<close> and \<open>sleepFn\<close> return normally, a value
  that is thrown is an \<open>Error\<close>, and \<open>pLimit\<close> accepts the concurrency that it is given
  and runs every function that it is handed.

  Strings are lists of characters; the code only concatenates them, tests them for
  emptiness and compares them with \<open>===\<close>. Of an exception the code reads nothing but
  \<open>err.message\<close>.
\<close>

datatype exn = Error (message: string)

text \<open>
  Numbers that the retry loop computes: \<open>Number(header)\<close> and \<open>Math.pow(2, attempt)\<close>.
  They are exact here (a rational, an infinity or \<open>NaN\<close>); the rounding of a literal to
  binary64 is not modelled, and \<open>2 ^ attempt * 1000\<close> is exact in binary64 up to
  attempt 43.
\<close>

datatype jsnum = NaN | Fin rat | PosInf | NegInf

fun times1000 :: "jsnum \<Rightarrow> jsnum" where
  "times1000 NaN = NaN"
| "times1000 (Fin q) = Fin (q * 1000)"
| "times1000 PosInf = PosInf"
| "times1000 NegInf = NegInf"

definition Math_pow2 :: "nat \<Rightarrow> jsnum" where
  "Math_pow2 attempt = Fin (2 ^ attempt)"

subsection \<open>\<open>Number(string)\<close>\<close>

text \<open>
  \<open>Number\<close> applied to a string is the StringToNumber operation of ECMAScript: white
  space is trimmed, the empty string is 0, then a binary, octal or hexadecimal integer
  literal without sign, or a decimal literal with an optional sign, fraction and
  exponent, or a signed \<open>Infinity\<close>; everything else is \<open>NaN\<close>. A header value is a
  string of code points below 256, which is what \<open>char\<close> holds.
\<close>

definition isWhiteSpace :: "char \<Rightarrow> bool" where
  "isWhiteSpace c \<longleftrightarrow> of_char c \<in> {9, 10, 11, 12, 13, 32, 160 :: nat}"

definition trim :: "string \<Rightarrow> string" where
  "trim s = rev (dropWhile isWhiteSpace (rev (dropWhile isWhiteSpace s)))"

definition digitValue :: "char \<Rightarrow> nat option" where
  "digitValue c =
     (let n = (of_char c :: nat) in
      if 48 \<le> n \<and> n \<le> 57 then Some (n - 48)
      else if 97 \<le> n \<and> n \<le> 102 then Some (n - 87)
      else if 65 \<le> n \<and> n \<le> 70 then Some (n - 55)
      else None)"

fun digitsFrom :: "nat \<Rightarrow> nat \<Rightarrow> string \<Rightarrow> nat option" where
  "digitsFrom base acc [] = Some acc"
| "digitsFrom base acc (c # cs) =
     (case digitValue c of
        None \<Rightarrow> None
      | Some d \<Rightarrow> if d < base then digitsFrom base (acc * base + d) cs else None)"

definition digits :: "nat \<Rightarrow> string \<Rightarrow> nat option" where
  "digits base s = (if s = [] then None else digitsFrom base 0 s)"

definition optDigits :: "string \<Rightarrow> nat option" where
  "optDigits s = digitsFrom 10 0 s"

definition splitAt :: "(char \<Rightarrow> bool) \<Rightarrow> string \<Rightarrow> string \<times> string option" where
  "splitAt P s =
     (case dropWhile (\<lambda>c. \<not> P c) s of
        [] \<Rightarrow> (s, None)
      | _ # rest \<Rightarrow> (takeWhile (\<lambda>c. \<not> P c) s, Some rest))"

definition exponentPart :: "string \<Rightarrow> int option" where
  "exponentPart s =
     (case s of
        [] \<Rightarrow> None
      | c # cs \<Rightarrow>
          if c = CHR ''+'' then map_option int (digits 10 cs)
          else if c = CHR ''-'' then map_option (\<lambda>n. - int n) (digits 10 cs)
          else map_option int (digits 10 s))"

definition mantissa :: "string \<Rightarrow> rat option" where
  "mantissa s =
     (case splitAt (\<lambda>c. c = CHR ''.'') s of
        (ip, None) \<Rightarrow> map_option of_nat (digits 10 ip)
      | (ip, Some fp) \<Rightarrow>
          if ip = [] \<and> fp = [] then None
          else (case (optDigits ip, optDigits fp) of
                  (Some i, Some f) \<Rightarrow> Some (of_nat i + of_nat f / 10 ^ length fp)
                | _ \<Rightarrow> None))"

definition scale10 :: "rat \<Rightarrow> int \<Rightarrow> rat" where
  "scale10 m e = (if 0 \<le> e then m * 10 ^ nat e else m / 10 ^ nat (- e))"

definition unsignedDecimal :: "string \<Rightarrow> jsnum" where
  "unsignedDecimal s =
     (if s = ''Infinity'' then PosInf
      else case splitAt (\<lambda>c. c = CHR ''e'' \<or> c = CHR ''E'') s of
             (m, None) \<Rightarrow> (case mantissa m of None \<Rightarrow> NaN | Some q \<Rightarrow> Fin q)
           | (m, Some x) \<Rightarrow>
               (case (mantissa m, exponentPart x) of
                  (Some q, Some e) \<Rightarrow> Fin (scale10 q e)
                | _ \<Rightarrow> NaN))"

fun negate :: "jsnum \<Rightarrow> jsnum" where
  "negate NaN = NaN"
| "negate (Fin q) = Fin (- q)"
| "negate PosInf = NegInf"
| "negate NegInf = PosInf"

definition radixLiteral :: "string \<Rightarrow> jsnum option" where
  "radixLiteral s =
     (case s of
        z # r # ds \<Rightarrow>
          if z \<noteq> CHR ''0'' then None
          else if r = CHR ''x'' \<or> r = CHR ''X'' then
            Some (case digits 16 ds of None \<Rightarrow> NaN | Some n \<Rightarrow> Fin (of_nat n))
          else if r = CHR ''o'' \<or> r = CHR ''O'' then
            Some (case digits 8 ds of None \<Rightarrow> NaN | Some n \<Rightarrow> Fin (of_nat n))
          else if r = CHR ''b'' \<or> r = CHR ''B'' then
            Some (case digits 2 ds of None \<Rightarrow> NaN | Some n \<Rightarrow> Fin (of_nat n))
          else None
      | _ \<Rightarrow> None)"

definition Number_js :: "string \<Rightarrow> jsnum" where
  "Number_js str =
     (let s = trim str in
      if s = [] then Fin 0
      else case radixLiteral s of
             Some v \<Rightarrow> v
           | None \<Rightarrow>
               (case s of
                  c # cs \<Rightarrow>
                    if c = CHR ''+'' then unsignedDecimal cs
                    else if c = CHR ''-'' then negate (unsignedDecimal cs)
                    else unsignedDecimal s
                | [] \<Rightarrow> Fin 0))"



subsection \<open>JSON values\<close>

text \<open>
  What \<open>JSON.parse\<close> returns, and what the payload of a request is before
  \<open>JSON.stringify\<close>. An object is its list of own properties.
\<close>

datatype json =
    JNull
  | JBool bool
  | JNumber rat
  | JString string
  | JArray "json list"
  | JObject "(string \<times> json) list"

section \<open>The transport\<close>

text \<open>
  \<open>client.request(method, url, data, headers)\<close> either resolves to a response or
  rejects. Of a response the code reads \<open>res.message.statusCode\<close>,
  \<open>res.message.headers\<close> and \<open>res.readBody()\<close>, which itself resolves to the body or
  rejects. The request headers are the same constant \<open>commonHeaders\<close> in every call and
  are left out.
\<close>

record response =
  statusCode :: "nat option"
  headers :: "(string \<rightharpoonup> string) option"
  readBody :: "exn + string"

datatype reply = Responds response | Throws exn

record request =
  "method" :: string
  url :: string
  data :: "json option"

text \<open>
  What a call does that can be observed from outside: the requests it sends and the
  delays it asks \<open>sleepFn\<close> for, in milliseconds.
\<close>

datatype event = Request request | Sleep jsnum

text \<open>
  The client of one task is the stream of replies that the requests of that task get, in
  the order in which the task sends them. Whatever the server and the other tasks do,
  they do it to a task through these replies.
\<close>

type_synonym client = "reply stream"

section \<open>\<open>requestWithRetry\<close>\<close>

definition retryAfterHeader :: "response \<Rightarrow> string option" where
  "retryAfterHeader res =
     (case headers res of
        None \<Rightarrow> None
      | Some h \<Rightarrow>
          (case h ''retry-after'' of
             Some v \<Rightarrow> if v \<noteq> [] then Some v else h ''Retry-After''
           | None \<Rightarrow> h ''Retry-After''))"

definition waitSec :: "response \<Rightarrow> nat \<Rightarrow> jsnum" where
  "waitSec res attempt =
     (case retryAfterHeader res of
        Some v \<Rightarrow> if v \<noteq> [] then Number_js v else Math_pow2 attempt
      | None \<Rightarrow> Math_pow2 attempt)"

definition status_of :: "response \<Rightarrow> nat" where
  "status_of res = (case statusCode res of Some n \<Rightarrow> n | None \<Rightarrow> 0)"

type_synonym retry_result = "(exn + response option) \<times> client \<times> event list"

definition after :: "event list \<Rightarrow> retry_result \<Rightarrow> retry_result" where
  "after evs r = (case r of (res, client, evs') \<Rightarrow> (res, client, evs @ evs'))"

text \<open>
  The loop of \<open>requestWithRetry\<close>; \<open>attempt0\<close> is the counter when the guard is tested,
  \<open>attempt\<close> its value after \<open>attempt++\<close>. The result is \<open>Inl err\<close> for \<open>throw err\<close>,
  \<open>Inr (Some res)\<close> for \<open>return res\<close>, and \<open>Inr None\<close> when the loop is left by its
  guard and the function returns \<open>undefined\<close>.
\<close>

function requestWithRetry_loop :: "client \<Rightarrow> request \<Rightarrow> int \<Rightarrow> int \<Rightarrow> retry_result" where
  "requestWithRetry_loop client req maxRetries attempt0 =
     (if attempt0 \<le> maxRetries then
        let attempt = attempt0 + 1 in
        (case shd client of
           Responds res \<Rightarrow>
             let status = status_of res in
             if 200 \<le> status \<and> status < 300 then (Inr (Some res), stl client, [Request req])
             else if 400 \<le> status \<and> status < 500 \<and> status \<noteq> 429 then
               (Inr (Some res), stl client, [Request req])
             else if attempt \<ge> maxRetries then (Inr (Some res), stl client, [Request req])
             else
               after [Request req, Sleep (times1000 (waitSec res (nat attempt)))]
                 (requestWithRetry_loop (stl client) req maxRetries attempt)
         | Throws err \<Rightarrow>
             if attempt \<ge> maxRetries then (Inl err, stl client, [Request req])
             else
               after [Request req, Sleep (times1000 (Math_pow2 (nat attempt)))]
                 (requestWithRetry_loop (stl client) req maxRetries attempt))
      else (Inr None, client, []))"
  by pat_completeness auto
termination
  by (relation "measure (\<lambda>(client, req, maxRetries, attempt0). nat (maxRetries + 1 - attempt0))")
    auto

declare requestWithRetry_loop.simps [simp del]

definition requestWithRetry ::
  "client \<Rightarrow> string \<Rightarrow> string \<Rightarrow> json option \<Rightarrow> int \<Rightarrow> retry_result" where
  "requestWithRetry client meth u body maxRetries =
     requestWithRetry_loop client \<lparr>method = meth, url = u, data = body\<rparr> maxRetries 0"


section \<open>\<open>issueAlreadyHasVersion\<close>\<close>

text \<open>
  Reading a property of a parsed value, for the keys that the code reads (\<open>fields\<close>, the
  version field, \<open>id\<close>, \<open>name\<close>): \<open>null\<close> throws a TypeError, an object gives its
  property or \<open>undefined\<close> (\<open>None\<close>), every other value gives \<open>undefined\<close>.
\<close>

definition getProp :: "json \<Rightarrow> string \<Rightarrow> exn + json option" where
  "getProp v key =
     (case v of
        JNull \<Rightarrow> Inl (Error (''Cannot read properties of null (reading '' @ [CHR 0x27] @ key @ [CHR 0x27] @ '')''))
      | JObject props \<Rightarrow> Inr (map_of props key)
      | _ \<Rightarrow> Inr None)"

fun truthy :: "json \<Rightarrow> bool" where
  "truthy JNull = False"
| "truthy (JBool b) = b"
| "truthy (JNumber q) = (q \<noteq> 0)"
| "truthy (JString s) = (s \<noteq> [])"
| "truthy (JArray xs) = True"
| "truthy (JObject props) = True"

text \<open>
  \<open>issueData.fields && issueData.fields[versionField] ? issueData.fields[versionField] : []\<close>;
  \<open>undefined\<close> is not truthy.
\<close>

definition existing :: "json \<Rightarrow> string \<Rightarrow> exn + json" where
  "existing issueData versionField =
     (case getProp issueData ''fields'' of
        Inl err \<Rightarrow> Inl err
      | Inr None \<Rightarrow> Inr (JArray [])
      | Inr (Some flds) \<Rightarrow>
          if \<not> truthy flds then Inr (JArray [])
          else (case getProp flds versionField of
                  Inl err \<Rightarrow> Inl err
                | Inr None \<Rightarrow> Inr (JArray [])
                | Inr (Some vs) \<Rightarrow> if truthy vs then Inr vs else Inr (JArray [])))"

text \<open>
  \<open>xs.some((v) => (versionIsId ? v.id === version : v.name === version))\<close>, with
  \<open>key\<close> the property that the flag selects. \<open>some\<close> stops at the first entry for which
  the test is true; \<open>===\<close> with a string is true for an equal string only.
\<close>

fun some_version :: "json list \<Rightarrow> string \<Rightarrow> string \<Rightarrow> exn + bool" where
  "some_version [] key version = Inr False"
| "some_version (v # vs) key version =
     (case getProp v key of
        Inl err \<Rightarrow> Inl err
      | Inr p \<Rightarrow> if p = Some (JString version) then Inr True else some_version vs key version)"

definition issueAlreadyHasVersion :: "json \<Rightarrow> string \<Rightarrow> string \<Rightarrow> bool \<Rightarrow> exn + bool" where
  "issueAlreadyHasVersion issueData versionField version versionIsId =
     (case existing issueData versionField of
        Inl err \<Rightarrow> Inl err
      | Inr (JArray xs) \<Rightarrow> some_version xs (if versionIsId then ''id'' else ''name'') version
      | Inr _ \<Rightarrow> Inl (Error ''existing.some is not a function''))"

section \<open>\<open>assignVersionToIssues\<close>\<close>

datatype mode = Fix | Affected

record JiraConfig =
  baseUrl :: string
  user :: string
  token :: string
  issues :: "string list"
  version :: string
  versionIsId :: bool
  mode :: mode
  dryRun :: bool
  concurrency :: "int option"
  maxRetries :: "int option"

record Failure =
  issue :: string
  error :: string

record report =
  updated :: "string list"
  failed :: "Failure list"
  skipped :: "string list"

definition empty_report :: report where
  "empty_report = \<lparr>updated = [], failed = [], skipped = []\<rparr>"

definition field :: "JiraConfig \<Rightarrow> string" where
  "field cfg = (if mode cfg = Affected then ''affectedVersions'' else ''fixVersions'')"

definition maxRetries_of :: "JiraConfig \<Rightarrow> int" where
  "maxRetries_of cfg = (case maxRetries cfg of Some n \<Rightarrow> n | None \<Rightarrow> 4)"

definition issueUrl :: "JiraConfig \<Rightarrow> string \<Rightarrow> string" where
  "issueUrl cfg iss = baseUrl cfg @ ''/rest/api/3/issue/'' @ iss"

text \<open>A status code in a template literal: its decimal digits.\<close>

fun decimal :: "nat \<Rightarrow> string" where
  "decimal n =
     (if n < 10 then [char_of (48 + n)] else decimal (n div 10) @ [char_of (48 + n mod 10)])"

declare decimal.simps [simp del]

definition undefined_read :: "string \<Rightarrow> exn" where
  "undefined_read key =
     Error (''Cannot read properties of undefined (reading '' @ [CHR 0x27] @ key @ [CHR 0x27] @ '')'')"

text \<open>
  One task is the function given to \<open>limit\<close>. Its \<open>try\<close> block gives \<open>Inl err\<close> when it
  throws and \<open>Inr ()\<close> when it returns, with the report as its pushes leave it and the
  events of its requests. \<open>JSON_parse\<close> is \<open>JSON.parse\<close>, \<open>None\<close> where it throws a
  SyntaxError.
\<close>

type_synonym task_result = "(exn + unit) \<times> report \<times> event list"

definition putVersion :: "JiraConfig \<Rightarrow> client \<Rightarrow> string \<Rightarrow> report \<Rightarrow> task_result" where
  "putVersion cfg client iss r =
     (let versionField =
            (if versionIsId cfg then JObject [(''id'', JString (version cfg))]
             else JObject [(''name'', JString (version cfg))]);
          payload = JObject [(''update'', JObject [(field cfg, JArray [JObject [(''add'', versionField)]])])]
      in case requestWithRetry client ''PUT'' (issueUrl cfg iss) (Some payload) (maxRetries_of cfg) of
           (Inl err, _, evs) \<Rightarrow> (Inl err, r, evs)
         | (Inr None, _, evs) \<Rightarrow> (Inl (undefined_read ''message''), r, evs)
         | (Inr (Some putRes), _, evs) \<Rightarrow>
             let status = status_of putRes in
             if 200 \<le> status \<and> status < 300 then (Inr (), r\<lparr>updated := updated r @ [iss]\<rparr>, evs)
             else (case readBody putRes of
                     Inl err \<Rightarrow> (Inl err, r, evs)
                   | Inr body \<Rightarrow>
                       (Inr (),
                        r\<lparr>failed := failed r @
                             [\<lparr>issue = iss, error = ''HTTP '' @ decimal status @ '': '' @ body\<rparr>]\<rparr>,
                        evs)))"

definition tryBlock ::
  "(string \<Rightarrow> json option) \<Rightarrow> JiraConfig \<Rightarrow> client \<Rightarrow> string \<Rightarrow> report \<Rightarrow> task_result" where
  "tryBlock JSON_parse cfg client iss r =
     (if dryRun cfg then (Inr (), r\<lparr>updated := updated r @ [iss]\<rparr>, [])
      else
        let getUrl = issueUrl cfg iss @ ''?fields='' @ field cfg in
        case requestWithRetry client ''GET'' getUrl None (maxRetries_of cfg) of
          (Inl err, _, evs) \<Rightarrow> (Inl err, r, evs)
        | (Inr None, _, evs) \<Rightarrow> (Inl (undefined_read ''readBody''), r, evs)
        | (Inr (Some getRes), client', evs) \<Rightarrow>
            (case readBody getRes of
               Inl err \<Rightarrow> (Inl err, r, evs)
             | Inr getBody \<Rightarrow>
                 let issueData =
                       (if getBody \<noteq> [] then
                          (case JSON_parse getBody of Some v \<Rightarrow> v | None \<Rightarrow> JObject [])
                        else JObject [])
                 in (case issueAlreadyHasVersion issueData (field cfg) (version cfg)
                            (versionIsId cfg) of
                       Inl err \<Rightarrow> (Inl err, r, evs)
                     | Inr True \<Rightarrow> (Inr (), r\<lparr>skipped := skipped r @ [iss]\<rparr>, evs)
                     | Inr False \<Rightarrow>
                         (case putVersion cfg client' iss r of
                            (res, r', evs') \<Rightarrow> (res, r', evs @ evs')))))"

definition issueTask ::
  "(string \<Rightarrow> json option) \<Rightarrow> JiraConfig \<Rightarrow> client \<Rightarrow> string \<Rightarrow> report \<Rightarrow> report \<times> event list" where
  "issueTask JSON_parse cfg client iss r =
     (case tryBlock JSON_parse cfg client iss r of
        (Inl err, r', evs) \<Rightarrow>
          (r'\<lparr>failed := failed r' @ [\<lparr>issue = iss, error = message err\<rparr>]\<rparr>, evs)
      | (Inr _, r', evs) \<Rightarrow> (r', evs))"

text \<open>
  \<open>Promise.all(issues.map((issue) => limit(task)))\<close>: one task for each index of
  \<open>issues\<close>. A task touches the three arrays once, by the push that ends it, so the
  report is what the tasks leave when they are run in the order in which they end.
  That order is decided by the event loop and the transport; it is the parameter
  \<open>order\<close>, a list of the indices. \<open>clients i\<close> is the client of task \<open>i\<close>. The events
  are kept task by task, in that order.
\<close>

definition runTask ::
  "(string \<Rightarrow> json option) \<Rightarrow> JiraConfig \<Rightarrow> (nat \<Rightarrow> client) \<Rightarrow>
   report \<times> event list \<Rightarrow> nat \<Rightarrow> report \<times> event list" where
  "runTask JSON_parse cfg clients st i =
     (case issueTask JSON_parse cfg (clients i) (issues cfg ! i) (fst st) of
        (r', evs) \<Rightarrow> (r', snd st @ evs))"

definition assignVersionToIssues ::
  "(string \<Rightarrow> json option) \<Rightarrow> JiraConfig \<Rightarrow> (nat \<Rightarrow> client) \<Rightarrow> nat list \<Rightarrow>
   report \<times> event list" where
  "assignVersionToIssues JSON_parse cfg clients order =
     foldl (runTask JSON_parse cfg clients) (empty_report, []) order"

section \<open>Observations used in the statements\<close>

fun isRequest :: "event \<Rightarrow> bool" where
  "isRequest (Request req) = True"
| "isRequest (Sleep ms) = False"

definition requestCount :: "event list \<Rightarrow> nat" where
  "requestCount evs = length (filter isRequest evs)"

definition events :: "'a \<times> 'b \<times> event list \<Rightarrow> event list" where
  "events r = snd (snd r)"

text \<open>
  The replies after which the loop goes on when attempts remain: an exception, or a
  response whose status is neither in [200, 300) nor in [400, 500) without 429.
\<close>

fun retried :: "reply \<Rightarrow> bool" where
  "retried (Throws err) = True"
| "retried (Responds res) =
     (\<not> (200 \<le> status_of res \<and> status_of res < 300) \<and>
      \<not> (400 \<le> status_of res \<and> status_of res < 500 \<and> status_of res \<noteq> 429))"

text \<open>
  The report of two runs one after the other, the report that task \<open>i\<close> leaves when it
  is the only task, and the issues that a report names, bucket by bucket.
\<close>

definition merge_reports :: "report \<Rightarrow> report \<Rightarrow> report" where
  "merge_reports a b =
     \<lparr>updated = updated a @ updated b, failed = failed a @ failed b,
      skipped = skipped a @ skipped b\<rparr>"

definition alone ::
  "(string \<Rightarrow> json option) \<Rightarrow> JiraConfig \<Rightarrow> (nat \<Rightarrow> client) \<Rightarrow> nat \<Rightarrow> report" where
  "alone JSON_parse cfg clients i =
     fst (issueTask JSON_parse cfg (clients i) (issues cfg ! i) empty_report)"

definition entries :: "report \<Rightarrow> string list" where
  "entries r = updated r @ skipped r @ map issue (failed r)"

text \<open>
  \<open>JSON.parse\<close> on the bodies of the examples below: three JSON texts, and \<open>None\<close> for
  the other bodies used there, none of which is JSON.
\<close>

definition JSON_parse_sample :: "string \<Rightarrow> json option" where
  "JSON_parse_sample s =
     (if s = ''{}'' then Some (JObject [])
      else if s = ''[]'' then Some (JArray [])
      else if s = ''null'' then Some JNull
      else None)"

text \<open>
  The run of the examples: three issues, one of them twice, one attempt for each
  request. The requests of task 1 fail in the transport; the other tasks get 200 with
  the body \<open>{}\<close> for the GET and 204 for the PUT.
\<close>

definition respond :: "nat \<Rightarrow> string \<Rightarrow> reply" where
  "respond status body = Responds \<lparr>statusCode = Some status, headers = None, readBody = Inr body\<rparr>"

definition sample_cfg :: JiraConfig where
  "sample_cfg =
     \<lparr>baseUrl = ''https://example.atlassian.net'', user = ''u'', token = ''t'',
      issues = [''ABC-1'', ''ABC-2'', ''ABC-1''], version = ''v1.0.0'', versionIsId = False,
      mode = Fix, dryRun = False, concurrency = Some 3, maxRetries = Some 1\<rparr>"

definition sample_clients :: "nat \<Rightarrow> client" where
  "sample_clients i =
     (if i = 1 then sconst (Throws (Error ''network down''))
      else respond 200 ''{}'' ## sconst (respond 204 []))"

section \<open>\<open>Number\<close> on decimal digits\<close>








section \<open>The retry loop\<close>

lemma events_after: "events (after evs r) = evs @ events r"
  by (cases r) (simp add: events_def after_def)

lemma fst_after: "fst (after evs r) = fst r"
  by (cases r) (simp add: after_def)

lemma requestCount_append: "requestCount (xs @ ys) = requestCount xs + requestCount ys"
  by (simp add: requestCount_def)

text \<open>One turn of the loop, case by case.\<close>

lemma loop_exit:
  "\<not> attempt0 \<le> maxR \<Longrightarrow>
   requestWithRetry_loop client req maxR attempt0 = (Inr None, client, [])"
  by (simp add: requestWithRetry_loop.simps [of client req maxR attempt0])

lemma loop_return:
  "attempt0 \<le> maxR \<Longrightarrow> shd client = Responds res \<Longrightarrow>
   \<not> retried (Responds res) \<or> maxR \<le> attempt0 + 1 \<Longrightarrow>
   requestWithRetry_loop client req maxR attempt0 = (Inr (Some res), stl client, [Request req])"
  by (auto simp add: requestWithRetry_loop.simps [of client req maxR attempt0] Let_def)

lemma loop_throw:
  "attempt0 \<le> maxR \<Longrightarrow> shd client = Throws err \<Longrightarrow> maxR \<le> attempt0 + 1 \<Longrightarrow>
   requestWithRetry_loop client req maxR attempt0 = (Inl err, stl client, [Request req])"
  by (simp add: requestWithRetry_loop.simps [of client req maxR attempt0] Let_def)

lemma loop_retry_response:
  "shd client = Responds res \<Longrightarrow> retried (Responds res) \<Longrightarrow> attempt0 + 1 < maxR \<Longrightarrow>
   requestWithRetry_loop client req maxR attempt0 =
     after [Request req, Sleep (times1000 (waitSec res (nat (attempt0 + 1))))]
       (requestWithRetry_loop (stl client) req maxR (attempt0 + 1))"
  by (auto simp add: requestWithRetry_loop.simps [of client req maxR attempt0] Let_def)

lemma loop_retry_throw:
  "shd client = Throws err \<Longrightarrow> attempt0 + 1 < maxR \<Longrightarrow>
   requestWithRetry_loop client req maxR attempt0 =
     after [Request req, Sleep (times1000 (Math_pow2 (nat (attempt0 + 1))))]
       (requestWithRetry_loop (stl client) req maxR (attempt0 + 1))"
  by (simp add: requestWithRetry_loop.simps [of client req maxR attempt0] Let_def)

lemma requestCount_simps [simp]:
  "requestCount [] = 0"
  "requestCount (Request req # evs) = Suc (requestCount evs)"
  "requestCount (Sleep ms # evs) = requestCount evs"
  by (simp_all add: requestCount_def)

lemma loop_count_le:
  "requestCount (events (requestWithRetry_loop client req maxR attempt0))
     \<le> nat (max 1 (maxR - attempt0))"
proof (induction client req maxR attempt0 rule: requestWithRetry_loop.induct)
  case (1 client req maxR attempt0)
  show ?case
  proof (cases "attempt0 \<le> maxR")
    case False
    then show ?thesis
      by (simp add: loop_exit events_def requestCount_def)
  next
    case le: True
    show ?thesis
    proof (cases "shd client")
      case (Throws err)
      show ?thesis
      proof (cases "attempt0 + 1 < maxR")
        case False
        with le Throws show ?thesis
          by (simp add: loop_throw events_def requestCount_def)
      next
        case True
        with le Throws "1.IH"(2) [of "attempt0 + 1" err] show ?thesis
          by (simp add: loop_retry_throw events_after requestCount_append)
      qed
    next
      case (Responds res)
      show ?thesis
      proof (cases "retried (Responds res) \<and> attempt0 + 1 < maxR")
        case False
        with le Responds have "requestWithRetry_loop client req maxR attempt0 =
            (Inr (Some res), stl client, [Request req])"
          by (intro loop_return) auto
        then show ?thesis
          by (simp add: events_def requestCount_def)
      next
        case True
        then have "\<not> (200 \<le> status_of res \<and> status_of res < 300)"
          and "\<not> (400 \<le> status_of res \<and> status_of res < 500 \<and> status_of res \<noteq> 429)"
          and "\<not> maxR \<le> attempt0 + 1"
          by auto
        from "1.IH"(1) [OF le refl Responds refl this]
        have "requestCount (events (requestWithRetry_loop (stl client) req maxR (attempt0 + 1)))
            \<le> nat (max 1 (maxR - (attempt0 + 1)))" .
        moreover from True have "attempt0 + 1 < maxR" and "retried (Responds res)"
          by simp_all
        ultimately show ?thesis
          using Responds by (simp add: loop_retry_response events_after)
      qed
    qed
  qed
qed

text \<open>When the guard holds the loop sends the request before anything else.\<close>

lemma loop_first_event:
  assumes "attempt0 \<le> maxR"
  shows "\<exists>rest. events (requestWithRetry_loop client req maxR attempt0) = Request req # rest"
proof (cases "shd client")
  case (Throws err)
  with assms show ?thesis
    by (cases "attempt0 + 1 < maxR")
      (simp_all add: loop_retry_throw loop_throw events_after, simp add: events_def)
next
  case (Responds res)
  show ?thesis
  proof (cases "retried (Responds res) \<and> attempt0 + 1 < maxR")
    case True
    with Responds show ?thesis
      by (simp add: loop_retry_response events_after)
  next
    case False
    with assms Responds have "requestWithRetry_loop client req maxR attempt0 =
        (Inr (Some res), stl client, [Request req])"
      by (intro loop_return) auto
    then show ?thesis
      by (simp add: events_def)
  qed
qed

lemma loop_count_ge:
  assumes "attempt0 \<le> maxR"
  shows "1 \<le> requestCount (events (requestWithRetry_loop client req maxR attempt0))"
proof -
  from loop_first_event [OF assms] obtain rest
    where "events (requestWithRetry_loop client req maxR attempt0) = Request req # rest"
    by blast
  then show ?thesis by (simp add: requestCount_def)
qed

lemma loop_throw_backoff:
  assumes "shd client = Throws err" and "attempt0 \<le> maxR" and "attempt0 + 1 < maxR"
  shows "take 2 (events (requestWithRetry_loop client req maxR attempt0)) =
           [Request req, Sleep (times1000 (Math_pow2 (nat (attempt0 + 1))))]"
  using assms
  by (simp add: loop_retry_throw events_after)

text \<open>
  C4 (as amended). The counter is 0 before the loop and is incremented before the
  request is sent, so the first try is attempt 1 and the back-off after a first failed
  try is \<open>2 ^ 1\<close> seconds. With \<open>maxRetries \<ge> 0\<close> the transport is called at least
  once and at most \<open>max 1 maxRetries\<close> times: the guard is tested on the counter before
  the increment, so the first request is sent also when \<open>maxRetries\<close> is 0.
\<close>

theorem requestWithRetry_attempts:
  assumes "0 \<le> maxR"
  shows "1 \<le> requestCount (events (requestWithRetry client meth u body maxR))
       \<and> requestCount (events (requestWithRetry client meth u body maxR))
           \<le> nat (max 1 maxR)
       \<and> (shd client = Throws err \<and> 2 \<le> maxR \<longrightarrow>
            take 2 (events (requestWithRetry client meth u body maxR)) =
              [Request \<lparr>method = meth, url = u, data = body\<rparr>, Sleep (Fin (2 ^ 1 * 1000))])"
proof -
  let ?req = "\<lparr>method = meth, url = u, data = body\<rparr>"
  have "1 \<le> requestCount (events (requestWithRetry_loop client ?req maxR 0))"
    using assms by (rule loop_count_ge)
  moreover have "requestCount (events (requestWithRetry_loop client ?req maxR 0))
      \<le> nat (max 1 maxR)"
    using loop_count_le [of client ?req maxR 0] by simp
  moreover have "take 2 (events (requestWithRetry_loop client ?req maxR 0)) =
      [Request ?req, Sleep (Fin (2 ^ 1 * 1000))]"
    if "shd client = Throws err" and "2 \<le> maxR"
    using loop_throw_backoff [of client err 0 maxR ?req] that
    by (simp add: Math_pow2_def)
  ultimately show ?thesis
    by (simp add: requestWithRetry_def)
qed

theorem requestWithRetry_attempts_witness:
  "(0::int) \<le> 3
   \<and> requestCount (events (requestWithRetry (sconst (Throws (Error ''network down'')))
        ''GET'' ''u'' None 3)) \<le> 3
   \<and> take 2 (events (requestWithRetry (sconst (Throws (Error ''network down'')))
        ''GET'' ''u'' None 3)) =
       [Request \<lparr>method = ''GET'', url = ''u'', data = None\<rparr>, Sleep (Fin 2000)]"
  using requestWithRetry_attempts
    [of 3 "sconst (Throws (Error ''network down''))" "''GET''" "''u''" None "Error ''network down''"]
  by simp

text \<open>
  C4 as stated fails for \<open>maxRetries = 0\<close>: one request is sent, which is more than
  \<open>maxRetries\<close>.
\<close>

theorem requestWithRetry_zero_counterexample:
  "requestCount (events (requestWithRetry
      (sconst (Responds \<lparr>statusCode = Some 500, headers = None, readBody = Inr ''''\<rparr>))
      ''GET'' ''u'' None 0)) = 1
   \<and> \<not> requestCount (events (requestWithRetry
      (sconst (Responds \<lparr>statusCode = Some 500, headers = None, readBody = Inr ''''\<rparr>))
      ''GET'' ''u'' None 0)) \<le> nat 0"
  by (simp add: requestWithRetry_def requestWithRetry_loop.simps status_of_def events_def
      requestCount_def)

text \<open>
  As long as the replies are retried the loop goes on to the last allowed attempt, and
  what it does there is what the call does.
\<close>

lemma loop_final:
  assumes "attempt0 \<le> maxR"
    and "n = nat (max 1 (maxR - attempt0)) - 1"
    and "\<forall>i<n. retried (client !! i)"
  shows "fst (requestWithRetry_loop client req maxR attempt0) =
           (case client !! n of Responds res \<Rightarrow> Inr (Some res) | Throws err \<Rightarrow> Inl err)"
  using assms
proof (induction n arbitrary: client attempt0)
  case 0
  then have last: "maxR \<le> attempt0 + 1"
    by simp
  show ?case
  proof (cases "shd client")
    case (Responds res)
    with 0 last show ?thesis
      by (simp add: loop_return)
  next
    case (Throws err)
    with 0 last show ?thesis
      by (simp add: loop_throw)
  qed
next
  case (Suc n)
  then have more: "attempt0 + 1 < maxR" and le': "attempt0 + 1 \<le> maxR"
    and n: "n = nat (max 1 (maxR - (attempt0 + 1))) - 1"
    by simp_all
  from Suc.prems have "retried (client !! 0)"
    by blast
  then have first: "retried (shd client)"
    by simp
  have rest: "\<forall>i<n. retried (stl client !! i)"
  proof (intro allI impI)
    fix i
    assume "i < n"
    then have "Suc i < Suc n"
      by simp
    with Suc.prems have "retried (client !! Suc i)"
      by blast
    then show "retried (stl client !! i)"
      by simp
  qed
  from Suc.IH [OF le' n rest]
  have IH: "fst (requestWithRetry_loop (stl client) req maxR (attempt0 + 1)) =
      (case client !! Suc n of Responds res \<Rightarrow> Inr (Some res) | Throws err \<Rightarrow> Inl err)"
    by simp
  show ?case
  proof (cases "shd client")
    case (Responds res)
    with first more IH show ?thesis
      by (simp add: loop_retry_response fst_after)
  next
    case (Throws err)
    with more IH show ?thesis
      by (simp add: loop_retry_throw fst_after)
  qed
qed

text \<open>
  C9. The last allowed attempt is number \<open>max 1 maxRetries\<close>; it is reached when every
  reply before it is one that is retried. A response received there is returned to the
  caller whatever its status, so also when it is not 2xx; an exception raised there is
  thrown to the caller.
\<close>

theorem requestWithRetry_exhaustion:
  assumes "0 \<le> maxR"
    and "\<forall>i < nat (max 1 maxR) - 1. retried (client !! i)"
  shows "(client !! (nat (max 1 maxR) - 1) = Responds res \<longrightarrow>
            fst (requestWithRetry client meth u body maxR) = Inr (Some res))
       \<and> (client !! (nat (max 1 maxR) - 1) = Throws err \<longrightarrow>
            fst (requestWithRetry client meth u body maxR) = Inl err)"
  using loop_final [of 0 maxR "nat (max 1 maxR) - 1" client
      "\<lparr>method = meth, url = u, data = body\<rparr>"] assms
  by (simp add: requestWithRetry_def)

theorem requestWithRetry_exhaustion_witness:
  "(0::int) \<le> 2
   \<and> retried (Responds \<lparr>statusCode = Some 500, headers = None, readBody = Inr ''oops''\<rparr>)
   \<and> fst (requestWithRetry
        (sconst (Responds \<lparr>statusCode = Some 500, headers = None, readBody = Inr ''oops''\<rparr>))
        ''PUT'' ''u'' None 2) =
      Inr (Some \<lparr>statusCode = Some 500, headers = None, readBody = Inr ''oops''\<rparr>)
   \<and> fst (requestWithRetry
        (Responds \<lparr>statusCode = Some 500, headers = None, readBody = Inr ''oops''\<rparr> ##
         sconst (Throws (Error ''socket hang up'')))
        ''PUT'' ''u'' None 2) =
      Inl (Error ''socket hang up'')"
  using requestWithRetry_exhaustion
      [of 2 "sconst (Responds \<lparr>statusCode = Some 500, headers = None, readBody = Inr ''oops''\<rparr>)"
        "\<lparr>statusCode = Some 500, headers = None, readBody = Inr ''oops''\<rparr>"
        "''PUT''" "''u''" None "Error ''x''"]
    requestWithRetry_exhaustion
      [of 2 "Responds \<lparr>statusCode = Some 500, headers = None, readBody = Inr ''oops''\<rparr> ##
         sconst (Throws (Error ''socket hang up''))"
        "\<lparr>statusCode = Some 500, headers = None, readBody = Inr ''oops''\<rparr>"
        "''PUT''" "''u''" None "Error ''socket hang up''"]
  by (simp add: status_of_def)






section \<open>One task\<close>

lemma merge_empty [simp]: "merge_reports empty_report r = r" "merge_reports r empty_report = r"
  by (simp_all add: merge_reports_def empty_report_def)

lemma merge_assoc: "merge_reports (merge_reports a b) c = merge_reports a (merge_reports b c)"
  by (simp add: merge_reports_def)

lemma putVersion_merge:
  "putVersion cfg client iss r =
     (case putVersion cfg client iss empty_report of
        (res, d, evs) \<Rightarrow> (res, merge_reports r d, evs))"
  by (simp add: putVersion_def merge_reports_def empty_report_def Let_def
      split: prod.splits sum.splits option.splits)

lemma tryBlock_merge:
  "tryBlock P cfg client iss r =
     (case tryBlock P cfg client iss empty_report of
        (res, d, evs) \<Rightarrow> (res, merge_reports r d, evs))"
proof (cases "dryRun cfg")
  case True
  then show ?thesis
    by (simp add: tryBlock_def merge_reports_def empty_report_def)
next
  case False
  obtain res client' evs where get:
    "requestWithRetry client ''GET'' (issueUrl cfg iss @ ''?fields='' @ field cfg) None
       (maxRetries_of cfg) = (res, client', evs)"
    by (cases "requestWithRetry client ''GET'' (issueUrl cfg iss @ ''?fields='' @ field cfg) None
       (maxRetries_of cfg)")
  obtain pres pd pevs where put: "putVersion cfg client' iss empty_report = (pres, pd, pevs)"
    by (cases "putVersion cfg client' iss empty_report")
  then have put': "putVersion cfg client' iss r = (pres, merge_reports r pd, pevs)"
    using putVersion_merge [of cfg client' iss r] by simp
  from False get put put' show ?thesis
    by (simp add: tryBlock_def Let_def merge_reports_def empty_report_def
        split: sum.splits option.splits bool.splits)
qed

lemma issueTask_merge:
  "issueTask P cfg client iss r =
     (merge_reports r (fst (issueTask P cfg client iss empty_report)),
      snd (issueTask P cfg client iss empty_report))"
proof -
  obtain res d evs where tb: "tryBlock P cfg client iss empty_report = (res, d, evs)"
    by (cases "tryBlock P cfg client iss empty_report")
  then have "tryBlock P cfg client iss r = (res, merge_reports r d, evs)"
    using tryBlock_merge [of P cfg client iss r] by simp
  with tb show ?thesis
    by (cases res) (simp_all add: issueTask_def merge_reports_def)
qed

text \<open>What the try block leaves when it starts from the empty report.\<close>

lemma putVersion_one:
  assumes "putVersion cfg client iss empty_report = (res, d, evs)"
  shows "(\<exists>err. res = Inl err \<and> d = empty_report)
       \<or> (res = Inr () \<and> d = \<lparr>updated = [iss], failed = [], skipped = []\<rparr>)
       \<or> (\<exists>e. res = Inr () \<and> d = \<lparr>updated = [], failed = [\<lparr>issue = iss, error = e\<rparr>], skipped = []\<rparr>)"
  using assms
  by (auto simp add: putVersion_def empty_report_def Let_def
      split: prod.splits sum.splits option.splits if_splits)

lemma tryBlock_one:
  assumes "tryBlock P cfg client iss empty_report = (res, d, evs)"
  shows "(\<exists>err. res = Inl err \<and> d = empty_report)
       \<or> (res = Inr () \<and> d = \<lparr>updated = [iss], failed = [], skipped = []\<rparr>)
       \<or> (res = Inr () \<and> d = \<lparr>updated = [], failed = [], skipped = [iss]\<rparr>)
       \<or> (\<exists>e. res = Inr () \<and> d = \<lparr>updated = [], failed = [\<lparr>issue = iss, error = e\<rparr>], skipped = []\<rparr>)"
proof (cases "dryRun cfg")
  case True
  with assms show ?thesis
    by (auto simp add: tryBlock_def empty_report_def)
next
  case False
  obtain gres client' gevs where get:
    "requestWithRetry client ''GET'' (issueUrl cfg iss @ ''?fields='' @ field cfg) None
       (maxRetries_of cfg) = (gres, client', gevs)"
    by (cases "requestWithRetry client ''GET'' (issueUrl cfg iss @ ''?fields='' @ field cfg) None
       (maxRetries_of cfg)")
  obtain pres pd pevs where put: "putVersion cfg client' iss empty_report = (pres, pd, pevs)"
    by (cases "putVersion cfg client' iss empty_report")
  note one = putVersion_one [OF put]
  from False get put assms one show ?thesis
    by (auto simp add: tryBlock_def Let_def empty_report_def
        split: sum.splits option.splits bool.splits)
qed

lemma issueTask_one:
  "entries (fst (issueTask P cfg client iss empty_report)) = [iss]"
proof -
  obtain res d evs where tb: "tryBlock P cfg client iss empty_report = (res, d, evs)"
    by (cases "tryBlock P cfg client iss empty_report")
  from tryBlock_one [OF tb] tb show ?thesis
    by (auto simp add: issueTask_def entries_def empty_report_def)
qed


section \<open>The run\<close>

lemma run_foldl:
  "foldl (runTask P cfg clients) st order =
     (foldl merge_reports (fst st) (map (alone P cfg clients) order),
      snd st @ concat (map (\<lambda>i. snd (issueTask P cfg (clients i) (issues cfg ! i) empty_report)) order))"
proof (induction order arbitrary: st)
  case Nil
  show ?case by simp
next
  case (Cons i order)
  have "runTask P cfg clients st i =
      (merge_reports (fst st) (alone P cfg clients i),
       snd st @ snd (issueTask P cfg (clients i) (issues cfg ! i) empty_report))"
    using issueTask_merge [of P cfg "clients i" "issues cfg ! i" "fst st"]
    by (simp add: runTask_def alone_def)
  then show ?case
    by (simp add: Cons.IH)
qed

lemma entries_merge: "mset (entries (merge_reports a b)) = mset (entries a) + mset (entries b)"
  by (simp add: entries_def merge_reports_def)

lemma entries_foldl:
  "mset (entries (foldl merge_reports r ds)) = mset (entries r) + (\<Sum>d\<leftarrow>ds. mset (entries d))"
  by (induction ds arbitrary: r) (simp_all add: entries_merge)

lemma entries_alone: "entries (alone P cfg clients i) = [issues cfg ! i]"
  by (simp add: alone_def issueTask_one)

lemma mset_order:
  assumes "mset order = mset [0..<length xs]"
  shows "mset (map (\<lambda>i. xs ! i) order) = mset xs"
proof -
  have "mset (map (\<lambda>i. xs ! i) order) = image_mset (\<lambda>i. xs ! i) (mset order)"
    by simp
  also have "\<dots> = mset (map (\<lambda>i. xs ! i) [0..<length xs])"
    by (simp add: assms)
  also have "\<dots> = mset xs"
    by (simp add: map_nth)
  finally show ?thesis .
qed

lemma run_entries:
  "mset (entries (fst (assignVersionToIssues P cfg clients order))) =
     mset (map (\<lambda>i. issues cfg ! i) order)"
proof -
  have "(\<Sum>d\<leftarrow>map (alone P cfg clients) order. mset (entries d)) =
      mset (map (\<lambda>i. issues cfg ! i) order)"
    by (induction order) (simp_all add: entries_alone)
  moreover have "entries empty_report = []"
    by (simp add: entries_def empty_report_def)
  ultimately show ?thesis
    by (simp add: assignVersionToIssues_def run_foldl entries_foldl)
qed

section \<open>The idempotency check\<close>

lemma getProp_not_null:
  "v \<noteq> JNull \<Longrightarrow> getProp v key = Inr (case v of JObject ps \<Rightarrow> map_of ps key | _ \<Rightarrow> None)"
  by (cases v) (simp_all add: getProp_def)




section \<open>The report of a run\<close>

lemma foldl_merge_buckets:
  "updated (foldl merge_reports r ds) = updated r @ concat (map updated ds)"
  "skipped (foldl merge_reports r ds) = skipped r @ concat (map skipped ds)"
  "failed (foldl merge_reports r ds) = failed r @ concat (map failed ds)"
  by (induction ds arbitrary: r) (simp_all add: merge_reports_def)

lemma run_buckets:
  "updated (fst (assignVersionToIssues P cfg clients order)) =
     concat (map (\<lambda>i. updated (alone P cfg clients i)) order)"
  "skipped (fst (assignVersionToIssues P cfg clients order)) =
     concat (map (\<lambda>i. skipped (alone P cfg clients i)) order)"
  "failed (fst (assignVersionToIssues P cfg clients order)) =
     concat (map (\<lambda>i. failed (alone P cfg clients i)) order)"
  by (simp_all add: assignVersionToIssues_def run_foldl foldl_merge_buckets empty_report_def
      comp_def)

text \<open>
  C3. Whatever the replies and whatever the order in which the tasks end, the three
  lists of the report have as many entries together as there are input issues, and the
  issues they name, counted with their repetitions, are the input issues: each task
  leaves one entry in one list, also when its try block throws.
\<close>

theorem report_partition:
  assumes "mset order = mset [0..<length (issues cfg)]"
  shows "length (updated (fst (assignVersionToIssues P cfg clients order)))
         + length (skipped (fst (assignVersionToIssues P cfg clients order)))
         + length (failed (fst (assignVersionToIssues P cfg clients order)))
         = length (issues cfg)
       \<and> mset (updated (fst (assignVersionToIssues P cfg clients order)))
         + mset (skipped (fst (assignVersionToIssues P cfg clients order)))
         + mset (map issue (failed (fst (assignVersionToIssues P cfg clients order))))
         = mset (issues cfg)"
proof -
  let ?r = "fst (assignVersionToIssues P cfg clients order)"
  have bag: "mset (entries ?r) = mset (issues cfg)"
    using run_entries [of P cfg clients order] mset_order [OF assms] by simp
  then have "size (mset (entries ?r)) = size (mset (issues cfg))"
    by simp
  then have "length (entries ?r) = length (issues cfg)"
    by simp
  with bag show ?thesis
    by (simp add: entries_def ac_simps)
qed


lemma dryRun_alone:
  assumes "dryRun cfg"
  shows "issueTask P cfg client iss empty_report =
           (\<lparr>updated = [iss], failed = [], skipped = []\<rparr>, [])"
  using assms by (simp add: issueTask_def tryBlock_def empty_report_def)

lemma run_events:
  "snd (assignVersionToIssues P cfg clients order) =
     concat (map (\<lambda>i. snd (issueTask P cfg (clients i) (issues cfg ! i) empty_report)) order)"
  by (simp add: assignVersionToIssues_def run_foldl)

text \<open>
  C6. In a dry run the updated list holds the input issues, each as often as it is in
  the input (in the order in which the tasks end), the other two lists are empty, and
  the run has no event: no request is sent, neither GET nor PUT, and nothing sleeps.
\<close>

theorem dryRun_report:
  assumes "dryRun cfg" and "mset order = mset [0..<length (issues cfg)]"
  shows "mset (updated (fst (assignVersionToIssues P cfg clients order))) = mset (issues cfg)
       \<and> skipped (fst (assignVersionToIssues P cfg clients order)) = []
       \<and> failed (fst (assignVersionToIssues P cfg clients order)) = []
       \<and> snd (assignVersionToIssues P cfg clients order) = []"
proof -
  have one: "alone P cfg clients i = \<lparr>updated = [issues cfg ! i], failed = [], skipped = []\<rparr>"
    for i
    using dryRun_alone [OF assms(1)] by (simp add: alone_def)
  have "updated (fst (assignVersionToIssues P cfg clients order)) =
      map (\<lambda>i. issues cfg ! i) order"
    by (simp add: run_buckets one)
  then have "mset (updated (fst (assignVersionToIssues P cfg clients order))) = mset (issues cfg)"
    using mset_order [OF assms(2)] by simp
  moreover have "skipped (fst (assignVersionToIssues P cfg clients order)) = []"
    and "failed (fst (assignVersionToIssues P cfg clients order)) = []"
    by (simp_all add: run_buckets one)
  moreover have "snd (assignVersionToIssues P cfg clients order) = []"
    by (simp add: run_events dryRun_alone [OF assms(1)])
  ultimately show ?thesis
    by simp
qed


section \<open>The examples\<close>

lemmas run_defs = sample_cfg_def sample_clients_def respond_def JSON_parse_sample_def
  assignVersionToIssues_def runTask_def issueTask_def tryBlock_def putVersion_def
  requestWithRetry_def requestWithRetry_loop.simps status_of_def after_def
  maxRetries_of_def issueUrl_def field_def empty_report_def
  issueAlreadyHasVersion_def existing_def getProp_def alone_def events_def

lemma sample_order: "mset [2, 0, 1] = mset [0..<length (issues sample_cfg)]"
  by (simp add: sample_cfg_def upt_rec_numeral)

lemma sample_report:
  "fst (assignVersionToIssues JSON_parse_sample sample_cfg sample_clients [2, 0, 1]) =
     \<lparr>updated = [''ABC-1'', ''ABC-1''],
      failed = [\<lparr>issue = ''ABC-2'', error = ''network down''\<rparr>], skipped = []\<rparr>"
  by (simp add: run_defs)

theorem report_partition_witness:
  "mset [2, 0, 1] = mset [0..<length (issues sample_cfg)]
   \<and> fst (assignVersionToIssues JSON_parse_sample sample_cfg sample_clients [2, 0, 1]) =
       \<lparr>updated = [''ABC-1'', ''ABC-1''],
        failed = [\<lparr>issue = ''ABC-2'', error = ''network down''\<rparr>], skipped = []\<rparr>
   \<and> length (updated (fst (assignVersionToIssues JSON_parse_sample sample_cfg sample_clients [2, 0, 1])))
       + length (skipped (fst (assignVersionToIssues JSON_parse_sample sample_cfg sample_clients [2, 0, 1])))
       + length (failed (fst (assignVersionToIssues JSON_parse_sample sample_cfg sample_clients [2, 0, 1])))
       = length (issues sample_cfg)
   \<and> mset (updated (fst (assignVersionToIssues JSON_parse_sample sample_cfg sample_clients [2, 0, 1])))
       + mset (skipped (fst (assignVersionToIssues JSON_parse_sample sample_cfg sample_clients [2, 0, 1])))
       + mset (map issue (failed (fst (assignVersionToIssues JSON_parse_sample sample_cfg sample_clients [2, 0, 1]))))
       = mset (issues sample_cfg)"
  using report_partition [OF sample_order, of JSON_parse_sample sample_clients]
    sample_order sample_report
  by simp

theorem dryRun_report_witness:
  "dryRun (sample_cfg\<lparr>dryRun := True\<rparr>)
   \<and> mset [2, 0, 1] = mset [0..<length (issues (sample_cfg\<lparr>dryRun := True\<rparr>))]
   \<and> assignVersionToIssues JSON_parse_sample (sample_cfg\<lparr>dryRun := True\<rparr>) sample_clients [2, 0, 1] =
       (\<lparr>updated = [''ABC-1'', ''ABC-1'', ''ABC-2''], failed = [], skipped = []\<rparr>, [])
   \<and> mset (updated (fst (assignVersionToIssues JSON_parse_sample (sample_cfg\<lparr>dryRun := True\<rparr>)
         sample_clients [2, 0, 1]))) = mset (issues (sample_cfg\<lparr>dryRun := True\<rparr>))"
proof -
  have perm: "mset [2, 0, 1] = mset [0..<length (issues (sample_cfg\<lparr>dryRun := True\<rparr>))]"
    using sample_order by simp
  have dry: "dryRun (sample_cfg\<lparr>dryRun := True\<rparr>)"
    by simp
  have run: "assignVersionToIssues JSON_parse_sample (sample_cfg\<lparr>dryRun := True\<rparr>) sample_clients [2, 0, 1] =
       (\<lparr>updated = [''ABC-1'', ''ABC-1'', ''ABC-2''], failed = [], skipped = []\<rparr>, [])"
    by (simp add: run_defs)
  from dryRun_report [OF dry perm, of JSON_parse_sample sample_clients] perm dry run
  show ?thesis
    by simp
qed


section \<open>The body of the GET response\<close>

lemma loop_returns_guard:
  "fst (requestWithRetry_loop client req maxR attempt0) = Inr (Some res) \<Longrightarrow> attempt0 \<le> maxR"
  by (rule ccontr) (simp add: loop_exit)

lemma putVersion_events:
  "\<exists>payload. events (putVersion cfg client iss r) =
     events (requestWithRetry client ''PUT'' (issueUrl cfg iss) (Some payload) (maxRetries_of cfg))"
proof -
  define key where "key = (if versionIsId cfg then ''id'' else ''name'')"
  define payload where "payload =
    JObject [(''update'', JObject [(field cfg,
      JArray [JObject [(''add'', JObject [(key, JString (version cfg))])]])])]"
  obtain res c evs where rq:
    "requestWithRetry client ''PUT'' (issueUrl cfg iss) (Some payload) (maxRetries_of cfg) =
       (res, c, evs)"
    by (cases "requestWithRetry client ''PUT'' (issueUrl cfg iss) (Some payload)
        (maxRetries_of cfg)")
  have "events (putVersion cfg client iss r) = evs"
  proof (cases "versionIsId cfg")
    case True
    with rq show ?thesis
      by (simp add: putVersion_def events_def Let_def payload_def key_def
          split: sum.splits option.splits)
  next
    case False
    with rq show ?thesis
      by (simp add: putVersion_def events_def Let_def payload_def key_def
          split: sum.splits option.splits)
  qed
  with rq have "events (putVersion cfg client iss r) =
      events (requestWithRetry client ''PUT'' (issueUrl cfg iss) (Some payload) (maxRetries_of cfg))"
    by (simp add: events_def)
  then show ?thesis
    by blast
qed

lemma putVersion_first_event:
  assumes "0 \<le> maxRetries_of cfg"
  shows "\<exists>req rest. events (putVersion cfg client iss r) = Request req # rest \<and>
           method req = ''PUT'' \<and> url req = issueUrl cfg iss"
proof -
  from putVersion_events obtain payload where
    "events (putVersion cfg client iss r) =
       events (requestWithRetry client ''PUT'' (issueUrl cfg iss) (Some payload) (maxRetries_of cfg))"
    by blast
  moreover from loop_first_event [OF assms] obtain rest where
    "events (requestWithRetry_loop client
        \<lparr>method = ''PUT'', url = issueUrl cfg iss, data = Some payload\<rparr> (maxRetries_of cfg) 0) =
      Request \<lparr>method = ''PUT'', url = issueUrl cfg iss, data = Some payload\<rparr> # rest"
    by blast
  ultimately show ?thesis
    by (simp add: requestWithRetry_def)
qed

text \<open>
  C8. The GET has returned a response, of whatever status, and its body is empty or is
  a text on which \<open>JSON.parse\<close> throws. Then the try block does not throw for that: the
  issue data is the empty object, the check finds no version, and the task goes on with
  the PUT, whose request is sent and whose outcome is the outcome of the task.
\<close>

theorem unparseable_body_proceeds:
  assumes "\<not> dryRun cfg"
    and "requestWithRetry client ''GET'' (issueUrl cfg iss @ ''?fields='' @ field cfg) None
           (maxRetries_of cfg) = (Inr (Some getRes), client', evs)"
    and "readBody getRes = Inr getBody"
    and "getBody = [] \<or> P getBody = None"
  shows "tryBlock P cfg client iss r =
           (case putVersion cfg client' iss r of (res, r', evs') \<Rightarrow> (res, r', evs @ evs'))
       \<and> (\<exists>req rest. events (putVersion cfg client' iss r) = Request req # rest \<and>
             method req = ''PUT'' \<and> url req = issueUrl cfg iss)"
proof -
  have empty: "issueAlreadyHasVersion (JObject []) (field cfg) (version cfg) (versionIsId cfg) =
      Inr False"
    by (simp add: issueAlreadyHasVersion_def existing_def getProp_def)
  from assms(4) have data: "(if getBody \<noteq> [] then
      (case P getBody of Some v \<Rightarrow> v | None \<Rightarrow> JObject []) else JObject []) = JObject []"
    by auto
  have "tryBlock P cfg client iss r =
      (case putVersion cfg client' iss r of (res, r', evs') \<Rightarrow> (res, r', evs @ evs'))"
    using assms(1-3) by (simp add: tryBlock_def Let_def data empty)
  moreover have "fst (requestWithRetry_loop client
      \<lparr>method = ''GET'', url = issueUrl cfg iss @ ''?fields='' @ field cfg, data = None\<rparr>
      (maxRetries_of cfg) 0) = Inr (Some getRes)"
    using assms(2) by (simp add: requestWithRetry_def)
  then have "0 \<le> maxRetries_of cfg"
    by (rule loop_returns_guard)
  ultimately show ?thesis
    using putVersion_first_event by simp
qed

theorem unparseable_body_proceeds_witness:
  "\<not> dryRun sample_cfg
   \<and> requestWithRetry (respond 200 ''<html>'' ## sconst (respond 204 [])) ''GET''
       (issueUrl sample_cfg ''ABC-1'' @ ''?fields='' @ field sample_cfg) None
       (maxRetries_of sample_cfg) =
      (Inr (Some \<lparr>statusCode = Some 200, headers = None, readBody = Inr ''<html>''\<rparr>),
       sconst (respond 204 []),
       [Request \<lparr>method = ''GET'',
          url = ''https://example.atlassian.net/rest/api/3/issue/ABC-1?fields=fixVersions'',
          data = None\<rparr>])
   \<and> JSON_parse_sample ''<html>'' = None
   \<and> issueTask JSON_parse_sample sample_cfg (respond 200 ''<html>'' ## sconst (respond 204 []))
       ''ABC-1'' empty_report =
      (\<lparr>updated = [''ABC-1''], failed = [], skipped = []\<rparr>,
       [Request \<lparr>method = ''GET'',
          url = ''https://example.atlassian.net/rest/api/3/issue/ABC-1?fields=fixVersions'',
          data = None\<rparr>,
        Request \<lparr>method = ''PUT'',
          url = ''https://example.atlassian.net/rest/api/3/issue/ABC-1'',
          data = Some (JObject [(''update'', JObject [(''fixVersions'',
            JArray [JObject [(''add'', JObject [(''name'', JString ''v1.0.0'')])]])])])\<rparr>])"
proof -
  have dry: "\<not> dryRun sample_cfg"
    by (simp add: sample_cfg_def)
  have get: "requestWithRetry (respond 200 ''<html>'' ## sconst (respond 204 [])) ''GET''
       (issueUrl sample_cfg ''ABC-1'' @ ''?fields='' @ field sample_cfg) None
       (maxRetries_of sample_cfg) =
      (Inr (Some \<lparr>statusCode = Some 200, headers = None, readBody = Inr ''<html>''\<rparr>),
       sconst (respond 204 []),
       [Request \<lparr>method = ''GET'',
          url = ''https://example.atlassian.net/rest/api/3/issue/ABC-1?fields=fixVersions'',
          data = None\<rparr>])"
    by (simp add: run_defs)
  have body: "readBody \<lparr>statusCode = Some 200, headers = None, readBody = Inr ''<html>''\<rparr> =
      Inr ''<html>''"
    by simp
  have parse: "''<html>'' = [] \<or> JSON_parse_sample ''<html>'' = None"
    by (simp add: JSON_parse_sample_def)
  have put: "putVersion sample_cfg (sconst (respond 204 [])) ''ABC-1'' empty_report =
      (Inr (), \<lparr>updated = [''ABC-1''], failed = [], skipped = []\<rparr>,
       [Request \<lparr>method = ''PUT'',
          url = ''https://example.atlassian.net/rest/api/3/issue/ABC-1'',
          data = Some (JObject [(''update'', JObject [(''fixVersions'',
            JArray [JObject [(''add'', JObject [(''name'', JString ''v1.0.0'')])]])])])\<rparr>])"
    by (simp add: run_defs)
  from unparseable_body_proceeds
      [where P = JSON_parse_sample and getBody = "''<html>''" and r = empty_report,
        OF dry get body parse]
    dry get parse put
  show ?thesis
    by (simp add: issueTask_def JSON_parse_sample_def)
qed

section \<open>A 404\<close>

text \<open>
  A PUT that is answered with 404 is not sent again, and the issue is failed with the
  status and the body in the error.
\<close>

lemma decimal_404: "decimal 404 = ''404''"
  by code_simp

lemma put_404_fails:
  assumes "0 \<le> maxRetries_of cfg" and "shd client = Responds res"
    and "statusCode res = Some 404" and "readBody res = Inr body"
  shows "\<exists>req. putVersion cfg client iss r =
           (Inr (), r\<lparr>failed := failed r @ [\<lparr>issue = iss, error = ''HTTP 404: '' @ body\<rparr>]\<rparr>,
            [Request req])
         \<and> method req = ''PUT'' \<and> url req = issueUrl cfg iss"
proof -
  have st: "status_of res = 404"
    using assms(3) by (simp add: status_of_def)
  then have "\<not> retried (Responds res)"
    by simp
  then have "requestWithRetry_loop client req (maxRetries_of cfg) 0 =
      (Inr (Some res), stl client, [Request req])" for req
    using assms(1,2) by (intro loop_return) simp_all
  then show ?thesis
    using st assms(4) by (simp add: putVersion_def requestWithRetry_def Let_def decimal_404)
qed

text \<open>
  C1 fails on the code for the GET. The status of the GET response is not looked at:
  after a 404 (here with an empty body) the task goes on, sends the PUT, and with a PUT
  that succeeds the issue is in the updated list, not in the failed list.
\<close>

theorem get_404_still_puts:
  "assignVersionToIssues P (sample_cfg\<lparr>issues := [''ABC-1'']\<rparr>)
     (\<lambda>i. respond 404 [] ## sconst (respond 204 [])) [0] =
   (\<lparr>updated = [''ABC-1''], failed = [], skipped = []\<rparr>,
    [Request \<lparr>method = ''GET'',
       url = ''https://example.atlassian.net/rest/api/3/issue/ABC-1?fields=fixVersions'',
       data = None\<rparr>,
     Request \<lparr>method = ''PUT'',
       url = ''https://example.atlassian.net/rest/api/3/issue/ABC-1'',
       data = Some (JObject [(''update'', JObject [(''fixVersions'',
         JArray [JObject [(''add'', JObject [(''name'', JString ''v1.0.0'')])]])])])\<rparr>])"
  by (simp add: run_defs)

end
